theory Spec2Isabelle
  imports Main
begin

section \<open>Kaizen Sweep repository selection (\<^verbatim>\<open>.github/kaizen-sweep/select-repos.py\<close>)\<close>

text \<open>
  A shallow embedding of the script that picks the repositories to sweep in a given
  hour of the week. Python's unbounded integers are \<^typ>\<open>int\<close>; \<^verbatim>\<open>//\<close> and \<^verbatim>\<open>%\<close> by a
  positive divisor are \<open>div\<close> and \<open>mod\<close> on \<^typ>\<open>int\<close> (both round towards minus
  infinity). Exceptions are values of \<open>py_error\<close>, returned as \<open>Inl\<close>.
\<close>

subsection \<open>Python values, dictionaries and exceptions\<close>

text \<open>
  What \<^verbatim>\<open>yaml.safe_load\<close> can put in a field of a repo record. Lists and mappings are
  the unhashable values: using one as a dictionary key raises \<^verbatim>\<open>TypeError\<close>.
\<close>

datatype pyval =
    PNone
  | PBool bool
  | PInt int
  | PStr string
  | PList "pyval list"
  | PDict "(string \<times> pyval) list"

datatype py_error = TypeError | IndexError | KeyError | ValueError | OtherError

text \<open>A repo record (and an override) is a \<^verbatim>\<open>dict\<close> with string keys.\<close>

type_synonym pydict = "string \<rightharpoonup> pyval"

text \<open>
  The \<^verbatim>\<open>settings\<close> mapping: each field is the value of \<^verbatim>\<open>settings.get(key)\<close>,
  \<open>None\<close> when the key is absent.
\<close>

record settings =
  s_active_hours :: "int list option"
  s_active_days :: "int list option"
  s_repos_per_hour :: "int option"

text \<open>
  The configuration: each field is the value under the top-level key of the same name,
  \<open>None\<close> when the key is absent. The keys of \<^verbatim>\<open>overrides\<close> are repo names (strings).
\<close>

record config =
  cfg_settings :: "settings option"
  cfg_active_repos :: "pydict list option"
  cfg_overrides :: "(string \<rightharpoonup> pydict) option"

definition empty_settings :: settings where
  "empty_settings = \<lparr>s_active_hours = None, s_active_days = None, s_repos_per_hour = None\<rparr>"

text \<open>\<^verbatim>\<open>x or default\<close> for an optional list: \<^verbatim>\<open>None\<close> and the empty list are both falsy.\<close>

definition or_default :: "'a list option \<Rightarrow> 'a list \<Rightarrow> 'a list" where
  "or_default x d = (case x of None \<Rightarrow> d | Some xs \<Rightarrow> if xs = [] then d else xs)"

text \<open>\<^verbatim>\<open>xs.index(x)\<close>: the position of the first occurrence, \<^verbatim>\<open>ValueError\<close> when there is none.\<close>

fun list_index :: "'a list \<Rightarrow> 'a \<Rightarrow> py_error + int" where
  "list_index [] x = Inl ValueError"
| "list_index (y # ys) x =
     (if y = x then Inr 0
      else case list_index ys x of Inl e \<Rightarrow> Inl e | Inr k \<Rightarrow> Inr (1 + k))"

text \<open>\<^verbatim>\<open>xs[i]\<close>: a negative index counts from the end, \<^verbatim>\<open>IndexError\<close> out of range.\<close>

definition list_getitem :: "'a list \<Rightarrow> int \<Rightarrow> py_error + 'a" where
  "list_getitem xs i =
     (if 0 \<le> i \<and> i < int (length xs) then Inr (xs ! nat i)
      else if - int (length xs) \<le> i \<and> i < 0 then Inr (xs ! nat (int (length xs) + i))
      else Inl IndexError)"

text \<open>\<^verbatim>\<open>d.get(k)\<close> on a repo record: \<^verbatim>\<open>None\<close> when the key is absent.\<close>

definition dict_get :: "pydict \<Rightarrow> string \<Rightarrow> pyval" where
  "dict_get d k = (case d k of None \<Rightarrow> PNone | Some v \<Rightarrow> v)"

text \<open>
  \<^verbatim>\<open>k in d\<close> for a dictionary with string keys: hashing a list or a mapping raises
  \<^verbatim>\<open>TypeError\<close>; any other value that is not a string equals no key.
\<close>

definition dict_contains :: "(string \<rightharpoonup> 'a) \<Rightarrow> pyval \<Rightarrow> py_error + bool" where
  "dict_contains d k =
     (case k of
        PStr s \<Rightarrow> Inr (d s \<noteq> None)
      | PList _ \<Rightarrow> Inl TypeError
      | PDict _ \<Rightarrow> Inl TypeError
      | _ \<Rightarrow> Inr False)"

text \<open>\<^verbatim>\<open>d[k]\<close> for a dictionary with string keys.\<close>

definition dict_getitem :: "(string \<rightharpoonup> 'a) \<Rightarrow> pyval \<Rightarrow> py_error + 'a" where
  "dict_getitem d k =
     (case k of
        PStr s \<Rightarrow> (case d s of None \<Rightarrow> Inl KeyError | Some v \<Rightarrow> Inr v)
      | PList _ \<Rightarrow> Inl TypeError
      | PDict _ \<Rightarrow> Inl TypeError
      | _ \<Rightarrow> Inl KeyError)"

text \<open>\<^verbatim>\<open>d.update(e)\<close>: every key of \<open>e\<close> takes \<open>e\<close>'s value, the other keys keep theirs.\<close>

definition dict_update :: "pydict \<Rightarrow> pydict \<Rightarrow> pydict" where
  "dict_update d e = d ++ e"

subsection \<open>The active window\<close>

text \<open>\<^verbatim>\<open>is_active_time(hour_of_week, settings)\<close>, lines 43 to 57.\<close>

definition is_active_time :: "int \<Rightarrow> settings \<Rightarrow> bool" where
  "is_active_time hour_of_week settings =
     (let active_hours = s_active_hours settings;
          active_days = s_active_days settings;
          day_index = hour_of_week div 24;
          hour_of_day = hour_of_week mod 24
      in if (case active_days of None \<Rightarrow> False | Some ds \<Rightarrow> day_index \<notin> set ds) then False
         else if (case active_hours of None \<Rightarrow> False | Some hs \<Rightarrow> hour_of_day \<notin> set hs)
         then False
         else True)"

subsection \<open>The selection\<close>

text \<open>
  Lines 96 to 101: the copy of the repo record, with the override of its name merged in.
  The copy is a new dictionary, so the update leaves the record in \<^verbatim>\<open>active_repos\<close> as it
  was (see the heap model below).
\<close>

definition apply_overrides :: "(string \<rightharpoonup> pydict) \<Rightarrow> pydict \<Rightarrow> py_error + pydict" where
  "apply_overrides overrides r =
     (let repo = r;
          repo_name = dict_get repo ''name''
      in case dict_contains overrides repo_name of
           Inl e \<Rightarrow> Inl e
         | Inr b \<Rightarrow>
             if b then
               (case dict_getitem overrides repo_name of
                  Inl e \<Rightarrow> Inl e
                | Inr ov \<Rightarrow> Inr (dict_update repo ov))
             else Inr repo)"

text \<open>
  The loop of lines 94 to 103 over the values \<open>i\<close> of \<^verbatim>\<open>range(repos_per_hour)\<close> that are
  left, with the list \<^verbatim>\<open>selected\<close> built so far.
\<close>

fun select_loop ::
  "pydict list \<Rightarrow> (string \<rightharpoonup> pydict) \<Rightarrow> int \<Rightarrow> int \<Rightarrow> int list \<Rightarrow> pydict list
     \<Rightarrow> py_error + pydict list" where
  "select_loop active_repos overrides start_index total_repos [] selected = Inr selected"
| "select_loop active_repos overrides start_index total_repos (i # rest) selected =
     (let repo_index = (start_index + i) mod total_repos
      in case list_getitem active_repos repo_index of
           Inl e \<Rightarrow> Inl e
         | Inr r \<Rightarrow>
             (case apply_overrides overrides r of
                Inl e \<Rightarrow> Inl e
              | Inr repo \<Rightarrow>
                  select_loop active_repos overrides start_index total_repos rest
                    (selected @ [repo])))"

text \<open>Line 62, \<^verbatim>\<open>config.get("settings", {})\<close>: the empty mapping when the key is absent.\<close>

definition get_settings :: "config \<Rightarrow> settings" where
  "get_settings config = (case cfg_settings config of None \<Rightarrow> empty_settings | Some s \<Rightarrow> s)"

text \<open>Line 63, \<^verbatim>\<open>config.get("active_repos", [])\<close>.\<close>

definition get_active_repos :: "config \<Rightarrow> pydict list" where
  "get_active_repos config = (case cfg_active_repos config of None \<Rightarrow> [] | Some rs \<Rightarrow> rs)"

text \<open>Line 64, \<^verbatim>\<open>config.get("overrides") or {}\<close>.\<close>

definition get_overrides :: "config \<Rightarrow> (string \<rightharpoonup> pydict)" where
  "get_overrides config = (case cfg_overrides config of None \<Rightarrow> Map.empty | Some ov \<Rightarrow> ov)"

text \<open>Line 74, \<^verbatim>\<open>settings.get("repos_per_hour", 1)\<close>.\<close>

definition get_repos_per_hour :: "settings \<Rightarrow> int" where
  "get_repos_per_hour settings = (case s_repos_per_hour settings of None \<Rightarrow> 1 | Some n \<Rightarrow> n)"

text \<open>
  \<^verbatim>\<open>select_repos(config, hour_of_week)\<close>, lines 60 to 105. \<^verbatim>\<open>range(n)\<close> is \<open>[0..n - 1]\<close>,
  empty when \<open>n \<le> 0\<close>. The modulus \<open>total_repos\<close> is positive where it is used: the
  empty list has returned before.
\<close>

definition select_repos :: "config \<Rightarrow> int \<Rightarrow> py_error + pydict list" where
  "select_repos config hour_of_week =
     (let settings = get_settings config;
          active_repos = get_active_repos config;
          overrides = get_overrides config
      in if active_repos = [] then Inr []
         else if \<not> is_active_time hour_of_week settings then Inr []
         else
           let repos_per_hour = get_repos_per_hour settings;
               total_repos = int (length active_repos);
               active_hours = or_default (s_active_hours settings) [0..23];
               active_days = or_default (s_active_days settings) [0..6];
               day_index = hour_of_week div 24;
               hour_of_day = hour_of_week mod 24
           in case (if day_index \<in> set active_days then list_index active_days day_index
                    else Inr 0) of
                Inl e \<Rightarrow> Inl e
              | Inr day_position \<Rightarrow>
                  (case (if hour_of_day \<in> set active_hours
                         then list_index active_hours hour_of_day else Inr 0) of
                     Inl e \<Rightarrow> Inl e
                   | Inr hour_position \<Rightarrow>
                       let active_hour_index =
                             day_position * int (length active_hours) + hour_position;
                           start_index = (active_hour_index * repos_per_hour) mod total_repos
                       in select_loop active_repos overrides start_index total_repos
                            [0..repos_per_hour - 1] []))"

subsection \<open>The command line\<close>

text \<open>\<^verbatim>\<open>get_hour_of_week(dt)\<close>, lines 27 to 34; \<open>now\<close> is what the clock reads when \<open>dt\<close> is \<^verbatim>\<open>None\<close>.\<close>

record datetime =
  dt_weekday :: int
  dt_hour :: int

definition get_hour_of_week :: "datetime option \<Rightarrow> datetime \<Rightarrow> int" where
  "get_hour_of_week dt now =
     (let dt = (case dt of None \<Rightarrow> now | Some d \<Rightarrow> d);
          day_index = dt_weekday dt;
          hour_of_day = dt_hour dt
      in (day_index * 24) + hour_of_day)"

text \<open>The parsed arguments: \<^verbatim>\<open>--hour\<close>, \<^verbatim>\<open>--config\<close>, \<^verbatim>\<open>--json\<close>, \<^verbatim>\<open>--debug\<close>.\<close>

record args =
  arg_hour :: "int option"
  arg_config :: "string option"
  arg_json :: bool
  arg_debug :: bool

text \<open>
  What \<^verbatim>\<open>main\<close> reads from outside: the directory of the script, which paths exist, what
  \<^verbatim>\<open>load_config\<close> returns for a path (or the exception it raises), and the clock.
\<close>

record env =
  env_script_dir :: string
  env_exists :: "string \<Rightarrow> bool"
  env_load_config :: "string \<Rightarrow> py_error + config"
  env_now :: datetime

text \<open>A line printed on the standard output: \<^verbatim>\<open>json.dumps\<close> of the selection, or a text.\<close>

datatype printed = Json "pydict list" | Text string

text \<open>
  What a run of \<^verbatim>\<open>main\<close> does: the lines on the standard error and output, the exit
  status, the exception that ended it (if one did), and the calls of \<^verbatim>\<open>select_repos\<close> it made.
\<close>

record outcome =
  out_stderr :: "string list"
  out_stdout :: "printed list"
  out_exit :: int
  out_raised :: "py_error option"
  out_select_calls :: "(config \<times> int) list"

text \<open>\<^verbatim>\<open>str(n)\<close> of an integer, and the format \<^verbatim>\<open>{n:02d}\<close>.\<close>

fun show_nat :: "nat \<Rightarrow> string" where
  "show_nat n =
     (if n < 10 then [''0123456789'' ! n]
      else show_nat (n div 10) @ [''0123456789'' ! (n mod 10)])"

declare show_nat.simps [simp del]

definition show_int :: "int \<Rightarrow> string" where
  "show_int i = (if i < 0 then ''-'' @ show_nat (nat (- i)) else show_nat (nat i))"

definition show_02d :: "int \<Rightarrow> string" where
  "show_02d i = (if 0 \<le> i \<and> i < 10 then ''0'' @ show_int i else show_int i)"

definition day_names :: "string list" where
  "day_names = [''Mon'', ''Tue'', ''Wed'', ''Thu'', ''Fri'', ''Sat'', ''Sun'']"

text \<open>Line 154, \<^verbatim>\<open>[repo["name"] for repo in selected]\<close>: \<^verbatim>\<open>KeyError\<close> on a record with no name.\<close>

fun repo_names :: "pydict list \<Rightarrow> py_error + pyval list" where
  "repo_names [] = Inr []"
| "repo_names (repo # rest) =
     (case repo ''name'' of
        None \<Rightarrow> Inl KeyError
      | Some v \<Rightarrow> (case repo_names rest of Inl e \<Rightarrow> Inl e | Inr vs \<Rightarrow> Inr (v # vs)))"

text \<open>Line 155, \<^verbatim>\<open>" ".join(names)\<close>: \<^verbatim>\<open>TypeError\<close> on an item that is not a string.\<close>

fun join_names :: "pyval list \<Rightarrow> py_error + string" where
  "join_names [] = Inr []"
| "join_names [PStr s] = Inr s"
| "join_names (PStr s # rest) =
     (case join_names rest of Inl e \<Rightarrow> Inl e | Inr t \<Rightarrow> Inr (s @ '' '' @ t))"
| "join_names (_ # rest) = Inl TypeError"

text \<open>The run ends: what it has printed, its exit status, the exception, the calls.\<close>

definition finish ::
  "string list \<Rightarrow> printed list \<Rightarrow> int \<Rightarrow> py_error option \<Rightarrow> (config \<times> int) list
     \<Rightarrow> outcome" where
  "finish err out status raised calls =
     \<lparr>out_stderr = err, out_stdout = out, out_exit = status, out_raised = raised,
      out_select_calls = calls\<rparr>"

text \<open>
  Lines 117 to 120, the path of the configuration: \<^verbatim>\<open>--config\<close> when it is given and not
  the empty string, \<^verbatim>\<open>config.yml\<close> beside the script otherwise.
\<close>

definition config_path_of :: "args \<Rightarrow> env \<Rightarrow> string" where
  "config_path_of args env =
     (case arg_config args of
        None \<Rightarrow> env_script_dir env @ ''/config.yml''
      | Some p \<Rightarrow> if p \<noteq> [] then p else env_script_dir env @ ''/config.yml'')"

text \<open>
  \<^verbatim>\<open>main()\<close>, lines 108 to 155, after \<^verbatim>\<open>parse_args\<close>. \<^verbatim>\<open>sys.exit(1)\<close> and an exception that
  nothing catches both end the run with status 1.
\<close>

definition main :: "args \<Rightarrow> env \<Rightarrow> outcome" where
  "main args env =
     (let config_path = config_path_of args env
      in if \<not> env_exists env config_path then
           finish [''Error: Config file not found: '' @ config_path] [] 1 None []
         else
           (case env_load_config env config_path of
              Inl e \<Rightarrow> finish [] [] 1 (Some e) []
            | Inr config \<Rightarrow>
                (let hour_of_week =
                       (case arg_hour args of
                          Some h \<Rightarrow> h
                        | None \<Rightarrow> get_hour_of_week None (env_now env))
                 in if hour_of_week < 0 \<or> hour_of_week > 167 then
                      finish
                        [''Error: Hour of week must be between 0 and 167, got ''
                           @ show_int hour_of_week]
                        [] 1 None []
                    else
                      (let debug1 =
                             (if arg_debug args then
                                [concat [''Hour of week: '', show_int hour_of_week, '' ('',
                                   day_names ! nat (hour_of_week div 24), '' '',
                                   show_02d (hour_of_week mod 24), '':00 UTC)'']]
                              else []);
                           calls = [(config, hour_of_week)]
                       in (case select_repos config hour_of_week of
                             Inl e \<Rightarrow> finish debug1 [] 1 (Some e) calls
                           | Inr selected \<Rightarrow>
                               (let debug2 =
                                      (if arg_debug args then
                                         [concat [''Selected '', show_int (int (length selected)),
                                            '' repos'']]
                                       else [])
                                in if arg_json args then
                                     finish (debug1 @ debug2) [Json selected] 0 None calls
                                   else
                                     (case repo_names selected of
                                        Inl e \<Rightarrow> finish (debug1 @ debug2) [] 1 (Some e) calls
                                      | Inr names \<Rightarrow>
                                          (case join_names names of
                                             Inl e \<Rightarrow>
                                               finish (debug1 @ debug2) [] 1 (Some e) calls
                                           | Inr line \<Rightarrow>
                                               finish (debug1 @ debug2) [Text line] 0 None
                                                 calls))))))))"

subsection \<open>The selection on a heap of dictionaries\<close>

text \<open>
  Python's dictionaries are objects: \<^verbatim>\<open>repo.update(...)\<close> changes the object \<^verbatim>\<open>repo\<close> refers
  to, for everyone who holds a reference to it. Here the repo records and the overrides
  live in a heap, the configuration holds their addresses, and \<^verbatim>\<open>select_repos\<close> returns
  the addresses of the records it made. \<open>h_next\<close> is the address the next new object gets.
  An address the heap does not hold reads as the empty dictionary.
\<close>

type_synonym addr = nat

record heap =
  h_objs :: "addr \<rightharpoonup> pydict"
  h_next :: addr

record hconfig =
  hc_settings :: "settings option"
  hc_active_repos :: "addr list option"
  hc_overrides :: "(string \<rightharpoonup> addr) option"

definition deref :: "heap \<Rightarrow> addr \<Rightarrow> pydict" where
  "deref hp a = (case h_objs hp a of None \<Rightarrow> Map.empty | Some d \<Rightarrow> d)"

text \<open>\<^verbatim>\<open>d.copy()\<close>: a new object with the fields of \<open>d\<close>.\<close>

definition heap_copy :: "addr \<Rightarrow> heap \<Rightarrow> addr \<times> heap" where
  "heap_copy a hp =
     (h_next hp, hp\<lparr>h_objs := (h_objs hp)(h_next hp \<mapsto> deref hp a), h_next := Suc (h_next hp)\<rparr>)"

text \<open>\<^verbatim>\<open>d.update(e)\<close>, in place: the object at \<open>a\<close> changes, no other does.\<close>

definition heap_update :: "addr \<Rightarrow> addr \<Rightarrow> heap \<Rightarrow> heap" where
  "heap_update a b hp =
     hp\<lparr>h_objs := (h_objs hp)(a \<mapsto> dict_update (deref hp a) (deref hp b))\<rparr>"

text \<open>Lines 96 to 101 on the heap.\<close>

definition apply_overrides_h ::
  "(string \<rightharpoonup> addr) \<Rightarrow> addr \<Rightarrow> heap \<Rightarrow> (py_error + addr) \<times> heap" where
  "apply_overrides_h overrides r hp =
     (let (repo, hp1) = heap_copy r hp;
          repo_name = dict_get (deref hp1 repo) ''name''
      in case dict_contains overrides repo_name of
           Inl e \<Rightarrow> (Inl e, hp1)
         | Inr b \<Rightarrow>
             if b then
               (case dict_getitem overrides repo_name of
                  Inl e \<Rightarrow> (Inl e, hp1)
                | Inr ov \<Rightarrow> (Inr repo, heap_update repo ov hp1))
             else (Inr repo, hp1))"

text \<open>The loop of lines 94 to 103 on the heap.\<close>

fun select_loop_h ::
  "addr list \<Rightarrow> (string \<rightharpoonup> addr) \<Rightarrow> int \<Rightarrow> int \<Rightarrow> int list \<Rightarrow> addr list \<Rightarrow> heap
     \<Rightarrow> (py_error + addr list) \<times> heap" where
  "select_loop_h active_repos overrides start_index total_repos [] selected hp =
     (Inr selected, hp)"
| "select_loop_h active_repos overrides start_index total_repos (i # rest) selected hp =
     (let repo_index = (start_index + i) mod total_repos
      in case list_getitem active_repos repo_index of
           Inl e \<Rightarrow> (Inl e, hp)
         | Inr r \<Rightarrow>
             (case apply_overrides_h overrides r hp of
                (Inl e, hp1) \<Rightarrow> (Inl e, hp1)
              | (Inr repo, hp1) \<Rightarrow>
                  select_loop_h active_repos overrides start_index total_repos rest
                    (selected @ [repo]) hp1))"

text \<open>Lines 62 to 64 on the heap.\<close>

definition hget_settings :: "hconfig \<Rightarrow> settings" where
  "hget_settings config = (case hc_settings config of None \<Rightarrow> empty_settings | Some s \<Rightarrow> s)"

definition hget_active_repos :: "hconfig \<Rightarrow> addr list" where
  "hget_active_repos config = (case hc_active_repos config of None \<Rightarrow> [] | Some rs \<Rightarrow> rs)"

definition hget_overrides :: "hconfig \<Rightarrow> (string \<rightharpoonup> addr)" where
  "hget_overrides config = (case hc_overrides config of None \<Rightarrow> Map.empty | Some ov \<Rightarrow> ov)"

text \<open>\<^verbatim>\<open>select_repos\<close>, lines 60 to 105, on the heap.\<close>

definition select_repos_h :: "hconfig \<Rightarrow> int \<Rightarrow> heap \<Rightarrow> (py_error + addr list) \<times> heap" where
  "select_repos_h config hour_of_week hp =
     (let settings = hget_settings config;
          active_repos = hget_active_repos config;
          overrides = hget_overrides config
      in if active_repos = [] then (Inr [], hp)
         else if \<not> is_active_time hour_of_week settings then (Inr [], hp)
         else
           let repos_per_hour = get_repos_per_hour settings;
               total_repos = int (length active_repos);
               active_hours = or_default (s_active_hours settings) [0..23];
               active_days = or_default (s_active_days settings) [0..6];
               day_index = hour_of_week div 24;
               hour_of_day = hour_of_week mod 24
           in case (if day_index \<in> set active_days then list_index active_days day_index
                    else Inr 0) of
                Inl e \<Rightarrow> (Inl e, hp)
              | Inr day_position \<Rightarrow>
                  (case (if hour_of_day \<in> set active_hours
                         then list_index active_hours hour_of_day else Inr 0) of
                     Inl e \<Rightarrow> (Inl e, hp)
                   | Inr hour_position \<Rightarrow>
                       let active_hour_index =
                             day_position * int (length active_hours) + hour_position;
                           start_index = (active_hour_index * repos_per_hour) mod total_repos
                       in select_loop_h active_repos overrides start_index total_repos
                            [0..repos_per_hour - 1] [] hp))"

text \<open>
  The configuration a heap configuration stands for, and the value of a result: the
  records read from the heap the call returns.
\<close>

definition abs_overrides :: "heap \<Rightarrow> (string \<rightharpoonup> addr) \<Rightarrow> (string \<rightharpoonup> pydict)" where
  "abs_overrides hp m = (\<lambda>k. map_option (deref hp) (m k))"

definition abs_config :: "heap \<Rightarrow> hconfig \<Rightarrow> config" where
  "abs_config hp hc =
     \<lparr>cfg_settings = hc_settings hc,
      cfg_active_repos = map_option (map (deref hp)) (hc_active_repos hc),
      cfg_overrides = map_option (abs_overrides hp) (hc_overrides hc)\<rparr>"

definition result_of :: "(py_error + addr list) \<times> heap \<Rightarrow> py_error + pydict list" where
  "result_of r = (case r of (Inl e, hp) \<Rightarrow> Inl e | (Inr as, hp) \<Rightarrow> Inr (map (deref hp) as))"

text \<open>Every object of the configuration is an object of the heap, below \<open>h_next\<close>.\<close>

definition config_in_heap :: "heap \<Rightarrow> hconfig \<Rightarrow> bool" where
  "config_in_heap hp hc =
     (list_all (\<lambda>a. a < h_next hp) (hget_active_repos hc)
      \<and> (\<forall>a \<in> ran (hget_overrides hc). a < h_next hp))"

text \<open>
  What a call may do to the heap: make new objects, at \<open>h_next\<close> and above, and leave
  every object that was there as it was.
\<close>

definition heap_extends :: "heap \<Rightarrow> heap \<Rightarrow> bool" where
  "heap_extends hp hp' =
     (h_next hp \<le> h_next hp' \<and> (\<forall>a. a < h_next hp \<longrightarrow> h_objs hp' a = h_objs hp a))"

subsection \<open>The specification's wording\<close>

text \<open>
  The specification's data model: the name of a repo record is a string. What the
  selection needs of it is that the name can be a dictionary key.
\<close>

definition hashable :: "pyval \<Rightarrow> bool" where
  "hashable v = (case v of PList _ \<Rightarrow> False | PDict _ \<Rightarrow> False | _ \<Rightarrow> True)"

definition names_hashable :: "pydict list \<Rightarrow> bool" where
  "names_hashable repos = list_all (\<lambda>r. hashable (dict_get r ''name'')) repos"

text \<open>
  Step 7 of the specification's algorithm: the record, with the override of its name
  merged in (shallow, override wins) when the name is a key of the overrides.
\<close>

definition merged :: "(string \<rightharpoonup> pydict) \<Rightarrow> pydict \<Rightarrow> pydict" where
  "merged overrides r =
     (case r ''name'' of
        Some (PStr n) \<Rightarrow> (case overrides n of None \<Rightarrow> r | Some ov \<Rightarrow> r ++ ov)
      | _ \<Rightarrow> r)"

text \<open>
  Steps 3 to 6 of the specification's algorithm: the position of a value in the
  configured list (0 when it is not there), the configured lists with their defaults, the
  active hour index and the start index.
\<close>

definition spec_ordinal :: "int list \<Rightarrow> int \<Rightarrow> int" where
  "spec_ordinal xs x = (if x \<in> set xs then int (length (takeWhile (\<lambda>y. y \<noteq> x) xs)) else 0)"

definition spec_active_days_list :: "settings \<Rightarrow> int list" where
  "spec_active_days_list s = (case s_active_days s of None \<Rightarrow> [0..6] | Some ds \<Rightarrow> ds)"

definition spec_active_hours_list :: "settings \<Rightarrow> int list" where
  "spec_active_hours_list s = (case s_active_hours s of None \<Rightarrow> [0..23] | Some hs \<Rightarrow> hs)"

definition spec_active_hour_index :: "settings \<Rightarrow> int \<Rightarrow> int" where
  "spec_active_hour_index s h =
     spec_ordinal (spec_active_days_list s) (h div 24) * int (length (spec_active_hours_list s))
       + spec_ordinal (spec_active_hours_list s) (h mod 24)"

definition spec_start_index :: "settings \<Rightarrow> int \<Rightarrow> int \<Rightarrow> int" where
  "spec_start_index s total_repos h =
     (spec_active_hour_index s h * get_repos_per_hour s) mod total_repos"

subsection \<open>Example configurations\<close>

definition repo_alpha :: pydict where
  "repo_alpha =
     [''name'' \<mapsto> PStr ''alpha'', ''branch'' \<mapsto> PStr ''main'', ''path'' \<mapsto> PStr ''src'']"

definition repo_beta :: pydict where
  "repo_beta = [''name'' \<mapsto> PStr ''beta'', ''branch'' \<mapsto> PStr ''main'']"

definition repo_gamma :: pydict where
  "repo_gamma = [''name'' \<mapsto> PStr ''gamma'']"

definition example_settings :: "int list option \<Rightarrow> int list option \<Rightarrow> int option \<Rightarrow> settings" where
  "example_settings hs ds n = \<lparr>s_active_hours = hs, s_active_days = ds, s_repos_per_hour = n\<rparr>"

text \<open>A configuration whose overrides set the branch of \<^verbatim>\<open>alpha\<close> to \<^verbatim>\<open>dev\<close>.\<close>

definition example_config :: "settings \<Rightarrow> pydict list \<Rightarrow> config" where
  "example_config s repos =
     \<lparr>cfg_settings = Some s, cfg_active_repos = Some repos,
      cfg_overrides = Some [''alpha'' \<mapsto> [''branch'' \<mapsto> PStr ''dev'']]\<rparr>"

text \<open>Three repos, two per hour, every hour active.\<close>

definition cfg_three :: config where
  "cfg_three =
     example_config (example_settings None None (Some 2)) [repo_alpha, repo_beta, repo_gamma]"

text \<open>Three repos, one per hour (the default), every hour active.\<close>

definition cfg_rotation :: config where
  "cfg_rotation =
     example_config (example_settings None None None) [repo_alpha, repo_beta, repo_gamma]"

text \<open>Three repos, five per hour, at 09:00 and 17:00 on Monday, Wednesday and Friday.\<close>

definition cfg_window :: config where
  "cfg_window =
     example_config (example_settings (Some [9, 17]) (Some [0, 2, 4]) (Some 5))
       [repo_alpha, repo_beta, repo_gamma]"

text \<open>One repo, two per hour, every hour active.\<close>

definition cfg_one_repo :: config where
  "cfg_one_repo = example_config (example_settings None None (Some 2)) [repo_beta]"

text \<open>An environment with no configuration file, and one where every path loads \<open>c\<close>.\<close>

definition env_no_config :: env where
  "env_no_config =
     \<lparr>env_script_dir = ''.github/kaizen-sweep'', env_exists = (\<lambda>p. False),
      env_load_config = (\<lambda>p. Inl OtherError),
      env_now = \<lparr>dt_weekday = 0, dt_hour = 0\<rparr>\<rparr>"

definition env_with_config :: "config \<Rightarrow> env" where
  "env_with_config c =
     \<lparr>env_script_dir = ''.github/kaizen-sweep'', env_exists = (\<lambda>p. True),
      env_load_config = (\<lambda>p. Inr c),
      env_now = \<lparr>dt_weekday = 0, dt_hour = 0\<rparr>\<rparr>"

text \<open>
  Two heaps that hold the same configuration at different addresses: \<^verbatim>\<open>alpha\<close> and
  \<^verbatim>\<open>beta\<close>, two per hour, the branch of \<^verbatim>\<open>alpha\<close> overridden.
\<close>

definition heap_one :: heap where
  "heap_one =
     \<lparr>h_objs = [0 \<mapsto> repo_alpha, 1 \<mapsto> repo_beta, 2 \<mapsto> [''branch'' \<mapsto> PStr ''dev'']],
      h_next = 3\<rparr>"

definition hconfig_one :: hconfig where
  "hconfig_one =
     \<lparr>hc_settings = Some (example_settings None None (Some 2)),
      hc_active_repos = Some [0, 1], hc_overrides = Some [''alpha'' \<mapsto> 2]\<rparr>"

definition heap_two :: heap where
  "heap_two =
     \<lparr>h_objs = [4 \<mapsto> [''branch'' \<mapsto> PStr ''dev''], 5 \<mapsto> repo_alpha, 7 \<mapsto> repo_beta,
                8 \<mapsto> repo_gamma],
      h_next = 9\<rparr>"

definition hconfig_two :: hconfig where
  "hconfig_two =
     \<lparr>hc_settings = Some (example_settings None None (Some 2)),
      hc_active_repos = Some [5, 7], hc_overrides = Some [''alpha'' \<mapsto> 4]\<rparr>"

definition args_hour :: "int \<Rightarrow> args" where
  "args_hour h = \<lparr>arg_hour = Some h, arg_config = None, arg_json = False, arg_debug = False\<rparr>"

section \<open>Properties\<close>

subsection \<open>Evaluation and basic facts\<close>

lemmas example_defs =
  example_config_def example_settings_def get_settings_def get_active_repos_def
  get_overrides_def get_repos_per_hour_def repo_alpha_def repo_beta_def repo_gamma_def
  cfg_three_def cfg_rotation_def cfg_window_def cfg_one_repo_def

lemmas eval_defs =
  select_repos_def is_active_time_def or_default_def list_getitem_def apply_overrides_def
  dict_get_def dict_contains_def dict_getitem_def dict_update_def Let_def upto_rec1

lemma apply_overrides_hashable:
  "hashable (dict_get r ''name'') \<Longrightarrow> apply_overrides ov r = Inr (merged ov r)"
  by (auto simp: apply_overrides_def merged_def hashable_def dict_get_def dict_contains_def
      dict_getitem_def dict_update_def split: option.splits pyval.splits)

lemma list_getitem_mod:
  assumes "xs \<noteq> []"
  shows "list_getitem xs (k mod int (length xs)) = Inr (xs ! nat (k mod int (length xs)))"
proof -
  have n: "0 < int (length xs)" using assms by simp
  have "0 \<le> k mod int (length xs)" and "k mod int (length xs) < int (length xs)"
    using n by simp_all
  then show ?thesis by (simp add: list_getitem_def)
qed

text \<open>The loop never fails on hashable names, and appends one record per index.\<close>

lemma select_loop_closed:
  assumes "repos \<noteq> []" and "names_hashable repos"
  shows "select_loop repos ov start (int (length repos)) js acc =
         Inr (acc @ map (\<lambda>i. merged ov (repos ! nat ((start + i) mod int (length repos)))) js)"
proof (induction js arbitrary: acc)
  case Nil
  show ?case by simp
next
  case (Cons j js)
  let ?k = "nat ((start + j) mod int (length repos))"
  have lt: "?k < length repos" using assms(1) by (simp add: nat_less_iff)
  have g: "list_getitem repos ((start + j) mod int (length repos)) = Inr (repos ! ?k)"
    using assms(1) by (rule list_getitem_mod)
  have h: "hashable (dict_get (repos ! ?k) ''name'')"
    using assms(2) lt by (simp add: names_hashable_def list_all_length)
  show ?case
    by (simp add: g apply_overrides_hashable [OF h] Cons.IH Let_def)
qed

lemma list_index_member:
  "x \<in> set xs \<Longrightarrow> list_index xs x = Inr (int (length (takeWhile (\<lambda>y. y \<noteq> x) xs)))"
  by (induction xs) auto

text \<open>
  In an active hour a configured list holds the hour (or the day), so it is not empty and
  \<^verbatim>\<open>or\<close> keeps it.
\<close>

lemma or_default_active_days:
  "is_active_time h s \<Longrightarrow> or_default (s_active_days s) [0..6] = spec_active_days_list s"
  by (auto simp: is_active_time_def or_default_def spec_active_days_list_def Let_def
      split: option.splits if_splits)

lemma or_default_active_hours:
  "is_active_time h s \<Longrightarrow> or_default (s_active_hours s) [0..23] = spec_active_hours_list s"
  by (auto simp: is_active_time_def or_default_def spec_active_hours_list_def Let_def
      split: option.splits if_splits)

lemma position_ordinal:
  "(if x \<in> set xs then list_index xs x else Inr 0) = Inr (spec_ordinal xs x)"
  by (simp add: spec_ordinal_def list_index_member)

lemma select_repos_empty: "get_active_repos cfg = [] \<Longrightarrow> select_repos cfg h = Inr []"
  by (simp add: select_repos_def)

lemma select_repos_inactive:
  "\<not> is_active_time h (get_settings cfg) \<Longrightarrow> select_repos cfg h = Inr []"
  by (simp add: select_repos_def Let_def)

lemma select_repos_loop:
  assumes "get_active_repos cfg \<noteq> []" and "is_active_time h (get_settings cfg)"
  shows "select_repos cfg h =
         select_loop (get_active_repos cfg) (get_overrides cfg)
           (spec_start_index (get_settings cfg) (int (length (get_active_repos cfg))) h)
           (int (length (get_active_repos cfg)))
           [0..get_repos_per_hour (get_settings cfg) - 1] []"
  using assms
  by (simp add: select_repos_def Let_def or_default_active_days or_default_active_hours
      position_ordinal spec_start_index_def spec_active_hour_index_def)

lemma select_repos_closed:
  assumes "get_active_repos cfg \<noteq> []"
    and "is_active_time h (get_settings cfg)"
    and "names_hashable (get_active_repos cfg)"
  shows "select_repos cfg h =
         Inr (map (\<lambda>i. merged (get_overrides cfg)
                     (get_active_repos cfg !
                        nat ((spec_start_index (get_settings cfg)
                                (int (length (get_active_repos cfg))) h + i)
                             mod int (length (get_active_repos cfg)))))
                [0..get_repos_per_hour (get_settings cfg) - 1])"
  by (simp add: select_repos_loop [OF assms(1,2)] select_loop_closed [OF assms(1,3)])

lemma nth_range: "0 \<le> i \<Longrightarrow> i < n \<Longrightarrow> [0..n - 1] ! nat i = i"
  by (simp add: nth_upto)

text \<open>Facts about the example configurations.\<close>

lemma cfg_three_repos: "get_active_repos cfg_three = [repo_alpha, repo_beta, repo_gamma]"
  by (simp add: example_defs)

lemma cfg_three_per_hour: "get_repos_per_hour (get_settings cfg_three) = 2"
  by (simp add: example_defs)

lemma cfg_three_active: "is_active_time h (get_settings cfg_three)"
  by (simp add: example_defs is_active_time_def)

lemma example_names_hashable: "names_hashable [repo_alpha, repo_beta, repo_gamma]"
  by (simp add: names_hashable_def hashable_def dict_get_def repo_alpha_def repo_beta_def
      repo_gamma_def)

subsection \<open>The length of the selection\<close>

text \<open>
  Claim C1, as the code has it. In an active hour, with a non-empty \<^verbatim>\<open>active_repos\<close> whose
  names are hashable, \<^verbatim>\<open>select_repos\<close> returns exactly \<^verbatim>\<open>repos_per_hour\<close> records (none
  when \<^verbatim>\<open>repos_per_hour\<close> is zero or negative): the loop runs \<^verbatim>\<open>range(repos_per_hour)\<close> and
  wraps around the list, so the length is not capped by the number of repos. When the
  hour is inactive or \<^verbatim>\<open>active_repos\<close> is empty, the result is empty.
\<close>

theorem select_repos_length:
  "(get_active_repos cfg \<noteq> [] \<and> is_active_time h (get_settings cfg)
      \<and> names_hashable (get_active_repos cfg) \<longrightarrow>
      (\<exists>rs. select_repos cfg h = Inr rs
         \<and> int (length rs) = max 0 (get_repos_per_hour (get_settings cfg)))) \<and>
   (get_active_repos cfg = [] \<or> \<not> is_active_time h (get_settings cfg) \<longrightarrow>
      select_repos cfg h = Inr [])"
  by (auto simp: select_repos_closed select_repos_empty select_repos_inactive)

text \<open>
  Monday 00:00, one repo, two per hour: the selection holds the repo twice, and
  \<open>min 2 1 = 1\<close>.
\<close>

theorem select_repos_length_min_counterexample:
  "get_active_repos cfg_one_repo = [repo_beta]
   \<and> get_repos_per_hour (get_settings cfg_one_repo) = 2
   \<and> is_active_time 0 (get_settings cfg_one_repo)
   \<and> select_repos cfg_one_repo 0 = Inr [repo_beta, repo_beta]
   \<and> int (length [repo_beta, repo_beta])
       \<noteq> min (get_repos_per_hour (get_settings cfg_one_repo))
             (int (length (get_active_repos cfg_one_repo)))"
  by (simp add: example_defs eval_defs)

text \<open>Wednesday 09:00 is active and gives five records of three repos; Tuesday 09:00 none.\<close>

theorem select_repos_length_witness:
  "get_active_repos cfg_window \<noteq> []
   \<and> is_active_time 57 (get_settings cfg_window)
   \<and> names_hashable (get_active_repos cfg_window)
   \<and> (\<exists>rs. select_repos cfg_window 57 = Inr rs \<and> int (length rs) = 5)
   \<and> \<not> is_active_time 33 (get_settings cfg_window)
   \<and> select_repos cfg_window 33 = Inr []"
  using select_repos_length [of cfg_window 57] select_repos_length [of cfg_window 33]
  by (simp add: example_defs is_active_time_def names_hashable_def hashable_def dict_get_def
      Let_def)

subsection \<open>The positions selected\<close>

text \<open>
  Claim C2. In an active hour, with a non-empty \<^verbatim>\<open>active_repos\<close> (names hashable),
  \<^verbatim>\<open>select_repos\<close> returns, for \<open>i\<close> from 0 to \<^verbatim>\<open>repos_per_hour - 1\<close>, the repo at position
  \<open>(start_index + i) mod total_repos\<close> with its override merged in, where \<open>start_index\<close> is
  \<open>(active_hour_index * repos_per_hour) mod total_repos\<close> and \<open>active_hour_index\<close> is
  \<open>day_ordinal * len(active_hours_list) + hour_ordinal\<close>.
\<close>

theorem select_repos_positions:
  assumes "get_active_repos cfg \<noteq> []"
    and "is_active_time h (get_settings cfg)"
    and "names_hashable (get_active_repos cfg)"
  shows "select_repos cfg h =
         Inr (map (\<lambda>i. merged (get_overrides cfg)
                     (get_active_repos cfg !
                        nat ((spec_start_index (get_settings cfg)
                                (int (length (get_active_repos cfg))) h + i)
                             mod int (length (get_active_repos cfg)))))
                [0..get_repos_per_hour (get_settings cfg) - 1])"
  using assms by (rule select_repos_closed)

text \<open>
  Two per hour, three repos, active hour index 2: the start index is 1 and the repos at
  positions 1 and 2 are selected.
\<close>

theorem select_repos_positions_witness:
  "get_active_repos cfg_three = [repo_alpha, repo_beta, repo_gamma]
   \<and> get_repos_per_hour (get_settings cfg_three) = 2
   \<and> is_active_time 2 (get_settings cfg_three)
   \<and> spec_active_hour_index (get_settings cfg_three) 2 = 2
   \<and> spec_start_index (get_settings cfg_three) 3 2 = 1
   \<and> select_repos cfg_three 2 = Inr [repo_beta, repo_gamma]
   \<and> [repo_beta, repo_gamma] = map (\<lambda>i. [repo_alpha, repo_beta, repo_gamma] ! i) [1, 2]"
proof -
  note a = cfg_three_repos and r = cfg_three_per_hour
  have act: "is_active_time 2 (get_settings cfg_three)" by (rule cfg_three_active)
  have hs: "names_hashable (get_active_repos cfg_three)"
    by (simp add: a example_names_hashable)
  have ne: "get_active_repos cfg_three \<noteq> []" by (simp add: a)
  have ahi: "spec_active_hour_index (get_settings cfg_three) 2 = 2"
    by (simp add: example_defs spec_active_hour_index_def spec_ordinal_def
        spec_active_days_list_def spec_active_hours_list_def upto_rec1)
  have st: "spec_start_index (get_settings cfg_three) 3 2 = 1"
    by (simp add: spec_start_index_def ahi r)
  have m: "merged (get_overrides cfg_three) repo_beta = repo_beta"
          "merged (get_overrides cfg_three) repo_gamma = repo_gamma"
    by (simp_all add: merged_def example_defs)
  have "select_repos cfg_three 2 = Inr [repo_beta, repo_gamma]"
    using select_repos_positions [OF ne act hs]
    by (simp add: a r st m upto_rec1)
  then show ?thesis using a r act ahi st by simp
qed

subsection \<open>The active window predicate\<close>

text \<open>
  Claim C4. \<^verbatim>\<open>is_active_time\<close> is false when \<^verbatim>\<open>active_days\<close> is configured and does not hold
  \<open>hour_of_week // 24\<close>, false when \<^verbatim>\<open>active_hours\<close> is configured and does not hold
  \<open>hour_of_week % 24\<close>, and true otherwise; with neither configured every hour is active.
\<close>

theorem is_active_time_spec:
  "(\<forall>ds. s_active_days s = Some ds \<longrightarrow> h div 24 \<notin> set ds \<longrightarrow> \<not> is_active_time h s) \<and>
   (\<forall>hs. s_active_hours s = Some hs \<longrightarrow> h mod 24 \<notin> set hs \<longrightarrow> \<not> is_active_time h s) \<and>
   ((\<forall>ds. s_active_days s = Some ds \<longrightarrow> h div 24 \<in> set ds) \<longrightarrow>
    (\<forall>hs. s_active_hours s = Some hs \<longrightarrow> h mod 24 \<in> set hs) \<longrightarrow> is_active_time h s) \<and>
   (s_active_days s = None \<longrightarrow> s_active_hours s = None \<longrightarrow> is_active_time h s)"
  by (auto simp: is_active_time_def Let_def split: option.splits)

text \<open>
  Days Monday, Wednesday, Friday and hour 9: Tuesday 09:00 (33) and Wednesday 10:00 (58)
  are inactive, Wednesday 09:00 (57) is active; with no window, hour 100 is active.
\<close>

theorem is_active_time_spec_witness:
  "\<not> is_active_time 33 (example_settings (Some [9]) (Some [0, 2, 4]) None)
   \<and> \<not> is_active_time 58 (example_settings (Some [9]) (Some [0, 2, 4]) None)
   \<and> is_active_time 57 (example_settings (Some [9]) (Some [0, 2, 4]) None)
   \<and> is_active_time 100 (example_settings None None None)"
  using is_active_time_spec [of "example_settings (Some [9]) (Some [0, 2, 4]) None" 33]
    is_active_time_spec [of "example_settings (Some [9]) (Some [0, 2, 4]) None" 58]
    is_active_time_spec [of "example_settings (Some [9]) (Some [0, 2, 4]) None" 57]
    is_active_time_spec [of "example_settings None None None" 100]
  by (simp add: example_settings_def)

subsection \<open>The override merge\<close>

text \<open>
  Claim C5. When the \<open>i\<close>-th selected repo has a name that is a key of the overrides, the
  \<open>i\<close>-th returned record is the base record with the override merged in: every field of
  the override has the override's value, every other field has the base record's.
\<close>

theorem select_repos_override_merge:
  assumes "get_active_repos cfg \<noteq> []"
    and "is_active_time h (get_settings cfg)"
    and "names_hashable (get_active_repos cfg)"
    and "0 \<le> i" and "i < get_repos_per_hour (get_settings cfg)"
    and "base = get_active_repos cfg !
                  nat ((spec_start_index (get_settings cfg)
                          (int (length (get_active_repos cfg))) h + i)
                       mod int (length (get_active_repos cfg)))"
    and "base ''name'' = Some (PStr n)"
    and "get_overrides cfg n = Some ov"
  shows "\<exists>rs. select_repos cfg h = Inr rs \<and> nat i < length rs
           \<and> rs ! nat i = base ++ ov
           \<and> (\<forall>k \<in> dom ov. (rs ! nat i) k = ov k)
           \<and> (\<forall>k. k \<notin> dom ov \<longrightarrow> (rs ! nat i) k = base k)"
proof -
  let ?f = "\<lambda>i. merged (get_overrides cfg)
                     (get_active_repos cfg !
                        nat ((spec_start_index (get_settings cfg)
                                (int (length (get_active_repos cfg))) h + i)
                             mod int (length (get_active_repos cfg))))"
  let ?rs = "map ?f [0..get_repos_per_hour (get_settings cfg) - 1]"
  have sel: "select_repos cfg h = Inr ?rs"
    using assms(1-3) by (rule select_repos_closed)
  have len: "nat i < length ?rs" using assms(4,5) by simp
  have "?rs ! nat i = ?f ([0..get_repos_per_hour (get_settings cfg) - 1] ! nat i)"
    using len by (simp del: upto.simps)
  also have "\<dots> = ?f i" using assms(4,5) by (simp add: nth_range)
  also have "\<dots> = base ++ ov" using assms(6-8) by (simp add: merged_def)
  finally have nth: "?rs ! nat i = base ++ ov" .
  have "\<forall>k \<in> dom ov. (base ++ ov) k = ov k" by (auto simp: map_add_dom_app_simps)
  moreover have "\<forall>k. k \<notin> dom ov \<longrightarrow> (base ++ ov) k = base k"
    by (simp add: map_add_dom_app_simps)
  ultimately show ?thesis using sel len nth by simp
qed

text \<open>
  \<^verbatim>\<open>alpha\<close> is selected on Monday 00:00 and the overrides set its branch to \<^verbatim>\<open>dev\<close>: the
  record returned has that branch, and the name and path of the base record.
\<close>

theorem select_repos_override_merge_witness:
  "repo_alpha ''name'' = Some (PStr ''alpha'')
   \<and> get_overrides cfg_three ''alpha'' = Some [''branch'' \<mapsto> PStr ''dev'']
   \<and> repo_alpha ''branch'' = Some (PStr ''main'')
   \<and> (\<exists>rs. select_repos cfg_three 0 = Inr rs
         \<and> (rs ! 0) ''branch'' = Some (PStr ''dev'')
         \<and> (rs ! 0) ''name'' = repo_alpha ''name''
         \<and> (rs ! 0) ''path'' = repo_alpha ''path'')"
proof -
  note a = cfg_three_repos and r = cfg_three_per_hour
  have act: "is_active_time 0 (get_settings cfg_three)" by (rule cfg_three_active)
  have hs: "names_hashable (get_active_repos cfg_three)"
    by (simp add: a example_names_hashable)
  have ne: "get_active_repos cfg_three \<noteq> []" by (simp add: a)
  have st: "spec_start_index (get_settings cfg_three) 3 0 = 0"
    by (simp add: spec_start_index_def spec_active_hour_index_def example_defs
        spec_ordinal_def spec_active_days_list_def spec_active_hours_list_def upto_rec1)
  have base: "repo_alpha = get_active_repos cfg_three !
                  nat ((spec_start_index (get_settings cfg_three)
                          (int (length (get_active_repos cfg_three))) 0 + 0)
                       mod int (length (get_active_repos cfg_three)))"
    by (simp add: a st)
  have nm: "repo_alpha ''name'' = Some (PStr ''alpha'')" by (simp add: repo_alpha_def)
  have ov: "get_overrides cfg_three ''alpha'' = Some [''branch'' \<mapsto> PStr ''dev'']"
    by (simp add: example_defs)
  have i: "(0::int) \<le> 0" "0 < get_repos_per_hour (get_settings cfg_three)"
    by (simp_all add: r)
  from select_repos_override_merge [OF ne act hs i base nm ov]
  obtain rs where rs: "select_repos cfg_three 0 = Inr rs"
      "\<forall>k \<in> dom [''branch'' \<mapsto> PStr ''dev'']. (rs ! nat 0) k = [''branch'' \<mapsto> PStr ''dev''] k"
      "\<forall>k. k \<notin> dom [''branch'' \<mapsto> PStr ''dev''] \<longrightarrow> (rs ! nat 0) k = repo_alpha k"
    by blast
  have "(rs ! 0) ''branch'' = Some (PStr ''dev'')" using rs(2) by simp
  moreover have "(rs ! 0) ''name'' = repo_alpha ''name''" using rs(3) by simp
  moreover have "(rs ! 0) ''path'' = repo_alpha ''path''" using rs(3) by simp
  ultimately show ?thesis using rs(1) nm ov by (auto simp: repo_alpha_def)
qed

subsection \<open>Empty results\<close>

text \<open>
  Claim C6. When \<^verbatim>\<open>active_repos\<close> is empty (or absent), \<^verbatim>\<open>select_repos\<close> returns the empty
  list for every hour of the week, whatever the active window.
\<close>

theorem select_repos_no_repos:
  "cfg_active_repos cfg = None \<or> cfg_active_repos cfg = Some [] \<Longrightarrow> select_repos cfg h = Inr []"
  by (auto simp: select_repos_def get_active_repos_def)

theorem select_repos_no_repos_witness:
  "cfg_active_repos (example_config (example_settings None None (Some 2)) []) = Some []
   \<and> is_active_time 5 (get_settings (example_config (example_settings None None (Some 2)) []))
   \<and> select_repos (example_config (example_settings None None (Some 2)) []) 5 = Inr []"
  using select_repos_no_repos [of "example_config (example_settings None None (Some 2)) []" 5]
  by (simp add: example_defs is_active_time_def)

text \<open>
  Claim C9. When \<^verbatim>\<open>active_hours\<close> (or \<^verbatim>\<open>active_days\<close>) is present and empty,
  \<^verbatim>\<open>is_active_time\<close> rejects every hour, so \<^verbatim>\<open>select_repos\<close> returns the empty list before
  it reaches the index computation and its \<^verbatim>\<open>or\<close> defaults.
\<close>

theorem select_repos_empty_window:
  "s_active_hours (get_settings cfg) = Some [] \<or> s_active_days (get_settings cfg) = Some []
   \<Longrightarrow> \<not> is_active_time h (get_settings cfg) \<and> select_repos cfg h = Inr []"
  by (auto simp: select_repos_def is_active_time_def Let_def split: option.splits)

theorem select_repos_empty_window_witness:
  "s_active_hours (get_settings (example_config (example_settings (Some []) None None)
       [repo_alpha])) = Some []
   \<and> get_active_repos (example_config (example_settings (Some []) None None) [repo_alpha]) \<noteq> []
   \<and> \<not> is_active_time 0 (get_settings (example_config (example_settings (Some []) None None)
       [repo_alpha]))
   \<and> select_repos (example_config (example_settings (Some []) None None) [repo_alpha]) 0 = Inr []
   \<and> s_active_days (get_settings (example_config (example_settings None (Some []) None)
       [repo_alpha])) = Some []
   \<and> select_repos (example_config (example_settings None (Some []) None) [repo_alpha]) 167
       = Inr []"
  using
    select_repos_empty_window
      [of "example_config (example_settings (Some []) None None) [repo_alpha]" 0]
    select_repos_empty_window
      [of "example_config (example_settings None (Some []) None) [repo_alpha]" 167]
  by (simp add: example_defs)

text \<open>
  Claim C10. When \<^verbatim>\<open>repos_per_hour\<close> is zero or negative, \<^verbatim>\<open>select_repos\<close> does not fail: it
  returns the empty list, also in an active hour with a non-empty \<^verbatim>\<open>active_repos\<close>.
\<close>

theorem select_repos_nonpositive_per_hour:
  assumes "s_repos_per_hour (get_settings cfg) = Some n" and "n \<le> 0"
  shows "select_repos cfg h = Inr []"
proof (cases "get_active_repos cfg \<noteq> [] \<and> is_active_time h (get_settings cfg)")
  case True
  have "[0..get_repos_per_hour (get_settings cfg) - 1] = []"
    using assms by (simp add: get_repos_per_hour_def)
  then show ?thesis using True by (simp add: select_repos_loop)
next
  case False
  then show ?thesis by (auto simp: select_repos_empty select_repos_inactive)
qed

theorem select_repos_nonpositive_per_hour_witness:
  "s_repos_per_hour (get_settings (example_config (example_settings None None (Some 0))
       [repo_alpha])) = Some 0
   \<and> get_active_repos (example_config (example_settings None None (Some 0)) [repo_alpha]) \<noteq> []
   \<and> is_active_time 10 (get_settings (example_config (example_settings None None (Some 0))
       [repo_alpha]))
   \<and> select_repos (example_config (example_settings None None (Some 0)) [repo_alpha]) 10 = Inr []
   \<and> select_repos (example_config (example_settings None None (Some (- 3))) [repo_alpha]) 10
       = Inr []"
  using
    select_repos_nonpositive_per_hour
      [of "example_config (example_settings None None (Some 0)) [repo_alpha]" 0 10]
    select_repos_nonpositive_per_hour
      [of "example_config (example_settings None None (Some (- 3))) [repo_alpha]" "- 3" 10]
  by (simp add: example_defs is_active_time_def)

subsection \<open>The command line's range check\<close>

text \<open>
  Claim C8, as the code has it. When \<^verbatim>\<open>--hour\<close> is outside 0 to 167, \<^verbatim>\<open>main\<close> ends with a
  status that is not zero, prints nothing on the standard output and never calls
  \<^verbatim>\<open>select_repos\<close>; when the configuration file exists and loads, what it reports is the
  range error with the value given. (The file is looked for, and loaded, before the hour
  is checked.)
\<close>

theorem main_hour_out_of_range:
  assumes "arg_hour args = Some h" and "h < 0 \<or> 167 < h"
  shows "out_exit (main args env) \<noteq> 0
         \<and> out_select_calls (main args env) = []
         \<and> out_stdout (main args env) = []
         \<and> (env_exists env (config_path_of args env) \<longrightarrow>
              (\<forall>c. env_load_config env (config_path_of args env) = Inr c \<longrightarrow>
                 out_stderr (main args env) =
                   [''Error: Hour of week must be between 0 and 167, got '' @ show_int h]
                 \<and> out_raised (main args env) = None
                 \<and> out_exit (main args env) = 1))"
  using assms
  by (auto simp: main_def finish_def Let_def split: sum.splits)

text \<open>With \<^verbatim>\<open>--hour 200\<close> and no configuration file, the error reported is the missing file.\<close>

theorem main_hour_out_of_range_counterexample:
  "arg_hour (args_hour 200) = Some 200
   \<and> out_stderr (main (args_hour 200) env_no_config)
       = [''Error: Config file not found: .github/kaizen-sweep/config.yml'']
   \<and> out_stderr (main (args_hour 200) env_no_config)
       \<noteq> [''Error: Hour of week must be between 0 and 167, got 200'']
   \<and> out_exit (main (args_hour 200) env_no_config) = 1"
  by (simp add: main_def finish_def args_hour_def env_no_config_def config_path_of_def)

theorem main_hour_out_of_range_witness:
  "arg_hour (args_hour 200) = Some 200
   \<and> env_exists (env_with_config cfg_three)
       (config_path_of (args_hour 200) (env_with_config cfg_three))
   \<and> out_stderr (main (args_hour 200) (env_with_config cfg_three))
       = [''Error: Hour of week must be between 0 and 167, got 200'']
   \<and> out_exit (main (args_hour 200) (env_with_config cfg_three)) = 1
   \<and> out_select_calls (main (args_hour 200) (env_with_config cfg_three)) = []
   \<and> out_stdout (main (args_hour 200) (env_with_config cfg_three)) = []"
  using main_hour_out_of_range [of "args_hour 200" 200 "env_with_config cfg_three"]
  by (simp add: args_hour_def env_with_config_def show_int_def show_nat.simps)

subsection \<open>The rotation with one repo per hour\<close>

text \<open>Arithmetic of the rotation: positions in a range, and how often a residue occurs.\<close>

lemma takeWhile_upto:
  "a \<le> x \<Longrightarrow> x \<le> n \<Longrightarrow> length (takeWhile (\<lambda>y. y \<noteq> x) [a..n]) = nat (x - a)"
proof (induction "nat (x - a)" arbitrary: a)
  case 0
  then have "a = x" by simp
  then show ?case using 0 by (simp add: upto_rec1)
next
  case (Suc k)
  then have lt: "a < x" and le: "a \<le> n" by simp_all
  have k: "k = nat (x - (a + 1))" using Suc(2) by simp
  have "length (takeWhile (\<lambda>y. y \<noteq> x) [a + 1..n]) = nat (x - (a + 1))"
    using Suc(1) [OF k] lt Suc(4) by simp
  then show ?case using lt le by (simp add: upto_rec1 nat_diff_distrib Suc_nat_eq_nat_zadd1)
qed

lemma spec_ordinal_upto: "0 \<le> x \<Longrightarrow> x \<le> n \<Longrightarrow> spec_ordinal [0..n] x = x"
  using takeWhile_upto [of 0 x n] by (simp add: spec_ordinal_def)

lemma active_hour_index_open:
  assumes "s_active_hours s = None" and "s_active_days s = None" and "0 \<le> h" and "h \<le> 167"
  shows "spec_active_hour_index s h = h"
proof -
  have d: "0 \<le> h div 24" "h div 24 \<le> 6" using assms(3,4) by simp_all
  have m: "0 \<le> h mod 24" "h mod 24 \<le> 23" by simp_all
  have "int (length [0..23::int]) = 24" by simp
  then show ?thesis
    using assms(1,2)
    by (simp add: spec_active_hour_index_def spec_active_days_list_def
        spec_active_hours_list_def spec_ordinal_upto [OF d] spec_ordinal_upto [OF m]
        del: upto.simps)
qed

lemma count_residue:
  assumes "j < (N::nat)"
  shows "length (filter (\<lambda>h. h mod N = j) [0..<M]) = M div N + (if j < M mod N then 1 else 0)"
proof (induction M)
  case 0
  show ?case by simp
next
  case (Suc M)
  have N: "0 < N" using assms by simp
  have lt: "M mod N < N" using N by simp
  show ?case using Suc assms lt by (auto simp: div_Suc mod_Suc)
qed

lemma upto_as_upt: "[0..int n - 1] = map int [0..<n]"
  by (induction n) (simp_all add: upto_rec2)

lemma count_residue_int:
  assumes "j < (N::nat)"
  shows "length (filter (\<lambda>h. h mod int N = int j) [0..167]) =
         168 div N + (if j < 168 mod N then 1 else 0)"
proof -
  have "[0..167] = map int [0..<168]" using upto_as_upt [of 168] by simp
  then have "length (filter (\<lambda>h. h mod int N = int j) [0..167]) =
             length (filter (\<lambda>h. h mod N = j) [0..<168])"
    by (simp add: filter_map o_def zmod_int [symmetric] del: upt.simps upto.simps)
  then show ?thesis using count_residue [OF assms, of 168] by simp
qed

lemma ceil_div:
  assumes "0 < (N::nat)"
  shows "(M + N - 1) div N = M div N + (if M mod N = 0 then 0 else 1)"
proof -
  define q r where "q = M div N" and "r = M mod N"
  have M: "M = q * N + r" and r: "r < N" using assms by (simp_all add: q_def r_def)
  show ?thesis
  proof (cases "r = 0")
    case True
    have "M + N - 1 = q * N + (N - 1)" using assms M True by simp
    then have "(M + N - 1) div N = q + (N - 1) div N"
      using assms by (metis div_mult_self3 less_numeral_extra(3))
    then show ?thesis using True assms by (simp add: q_def r_def)
  next
    case False
    have "q * N + r + N - 1 = (q + 1) * N + (r - 1)" using False by (simp add: algebra_simps)
    then have "(M + N - 1) div N = (q + 1) + (r - 1) div N"
      using assms M by (metis div_mult_self3 less_numeral_extra(3))
    moreover have "(r - 1) div N = 0" using r by simp
    ultimately show ?thesis using False by (simp add: q_def r_def)
  qed
qed


lemma start_index_open:
  assumes "get_repos_per_hour s = 1"
    and "s_active_hours s = None" and "s_active_days s = None"
    and "0 \<le> h" and "h \<le> 167"
  shows "spec_start_index s N h = h mod N"
  using assms by (simp add: spec_start_index_def active_hour_index_open)

lemma is_active_open:
  "s_active_hours s = None \<Longrightarrow> s_active_days s = None \<Longrightarrow> is_active_time h s"
  by (simp add: is_active_time_def)

text \<open>
  Claim C3. With \<open>N > 0\<close> repos (names hashable), one repo per hour and no active hours or
  days configured, the repo selected at hour \<open>h\<close> of the week is the one at position
  \<open>h mod N\<close>, for every \<open>h\<close> from 0 to 167. Hence over the 168 hours each position is
  selected \<open>168 div N\<close> times, and once more when it is below \<open>168 mod N\<close>: the floor or the
  ceiling of \<open>168 / N\<close>. The position advances by one (mod \<open>N\<close>) from each hour to the
  next, and the first \<open>N\<close> hours select the positions 0, 1, ... in list order.
\<close>

theorem select_repos_rotation:
  assumes "get_active_repos cfg \<noteq> []" and "names_hashable (get_active_repos cfg)"
    and "get_repos_per_hour (get_settings cfg) = 1"
    and "s_active_hours (get_settings cfg) = None"
    and "s_active_days (get_settings cfg) = None"
    and "N = length (get_active_repos cfg)"
  shows "(\<forall>h \<in> {0..167}. select_repos cfg h =
            Inr [merged (get_overrides cfg) (get_active_repos cfg ! nat (h mod int N))])
       \<and> (\<forall>h \<in> {0..167}. spec_start_index (get_settings cfg) (int N) h = h mod int N)
       \<and> (\<forall>j < N. length (filter (\<lambda>h. spec_start_index (get_settings cfg) (int N) h = int j)
                              [0..167])
                    = 168 div N + (if j < 168 mod N then 1 else 0))
       \<and> (\<forall>j < N. length (filter (\<lambda>h. spec_start_index (get_settings cfg) (int N) h = int j)
                              [0..167])
                    \<in> {168 div N, (168 + N - 1) div N})
       \<and> (\<forall>h \<in> {0..166}. spec_start_index (get_settings cfg) (int N) (h + 1) =
                            (spec_start_index (get_settings cfg) (int N) h + 1) mod int N)
       \<and> (\<forall>h \<in> {0..167}. h < int N \<longrightarrow> spec_start_index (get_settings cfg) (int N) h = h)"
proof -
  let ?s = "get_settings cfg"
  have pos: "0 < N" using assms(1,6) by simp
  have si: "spec_start_index ?s (int N) h = h mod int N" if "0 \<le> h" "h \<le> 167" for h
    using assms(3-5) that by (rule start_index_open)
  have sel: "select_repos cfg h =
            Inr [merged (get_overrides cfg) (get_active_repos cfg ! nat (h mod int N))]"
    if "0 \<le> h" "h \<le> 167" for h
  proof -
    have act: "is_active_time h ?s" using assms(4,5) by (rule is_active_open)
    have "[0..get_repos_per_hour ?s - 1] = [0]" using assms(3) by (simp add: upto_rec1)
    then show ?thesis
      using select_repos_closed [OF assms(1) act assms(2)] si [OF that] assms(6)
      by (simp del: upto.simps)
  qed
  have cnt: "length (filter (\<lambda>h. spec_start_index ?s (int N) h = int j) [0..167])
             = 168 div N + (if j < 168 mod N then 1 else 0)" if "j < N" for j
  proof -
    have "filter (\<lambda>h. spec_start_index ?s (int N) h = int j) [0..167]
          = filter (\<lambda>h. h mod int N = int j) [0..167]"
      by (rule filter_cong) (simp_all add: si del: upto.simps)
    then show ?thesis using count_residue_int [OF that] by (simp del: upto.simps)
  qed
  have fc: "length (filter (\<lambda>h. spec_start_index ?s (int N) h = int j) [0..167])
             \<in> {168 div N, (168 + N - 1) div N}" if "j < N" for j
    using cnt [OF that] ceil_div [OF pos, of 168] by (auto split: if_splits)
  have step: "spec_start_index ?s (int N) (h + 1) = (spec_start_index ?s (int N) h + 1) mod int N"
    if "0 \<le> h" "h \<le> 166" for h
    using si [of h] si [of "h + 1"] that by (simp add: mod_add_left_eq)
  have first: "spec_start_index ?s (int N) h = h" if "0 \<le> h" "h \<le> 167" "h < int N" for h
    using si [of h] that by simp
  show ?thesis using sel si cnt fc step first by (auto simp del: upto.simps)
qed

theorem select_repos_rotation_witness:
  "get_active_repos cfg_rotation = [repo_alpha, repo_beta, repo_gamma]
   \<and> get_repos_per_hour (get_settings cfg_rotation) = 1
   \<and> select_repos cfg_rotation 0 = Inr [merged (get_overrides cfg_rotation) repo_alpha]
   \<and> select_repos cfg_rotation 1 = Inr [repo_beta]
   \<and> select_repos cfg_rotation 2 = Inr [repo_gamma]
   \<and> select_repos cfg_rotation 3 = Inr [merged (get_overrides cfg_rotation) repo_alpha]
   \<and> select_repos cfg_rotation 167 = Inr [repo_gamma]
   \<and> length (filter (\<lambda>h. spec_start_index (get_settings cfg_rotation) 3 h = 1) [0..167]) = 56
   \<and> spec_start_index (get_settings cfg_rotation) 3 (2 + 1) = 0"
proof -
  have a: "get_active_repos cfg_rotation = [repo_alpha, repo_beta, repo_gamma]"
    by (simp add: example_defs)
  have ne: "get_active_repos cfg_rotation \<noteq> []" by (simp add: a)
  have hs: "names_hashable (get_active_repos cfg_rotation)"
    by (simp add: a example_names_hashable)
  have r: "get_repos_per_hour (get_settings cfg_rotation) = 1" by (simp add: example_defs)
  have ah: "s_active_hours (get_settings cfg_rotation) = None"
    and ad: "s_active_days (get_settings cfg_rotation) = None"
    by (simp_all add: example_defs)
  have n: "3 = length (get_active_repos cfg_rotation)" by (simp add: a)
  have m: "merged (get_overrides cfg_rotation) repo_beta = repo_beta"
          "merged (get_overrides cfg_rotation) repo_gamma = repo_gamma"
    by (simp_all add: merged_def example_defs)
  note t = select_repos_rotation [OF ne hs r ah ad n]
  from t have sel: "\<forall>h \<in> {0..167}. select_repos cfg_rotation h =
            Inr [merged (get_overrides cfg_rotation) (get_active_repos cfg_rotation ! nat (h mod int 3))]"
    by blast
  from t have cnt: "\<forall>j < 3. length (filter (\<lambda>h. spec_start_index (get_settings cfg_rotation) (int 3) h = int j)
                              [0..167])
                    = 168 div 3 + (if j < 168 mod 3 then 1 else 0)"
    by blast
  from t have step: "\<forall>h \<in> {0..166}. spec_start_index (get_settings cfg_rotation) (int 3) (h + 1) =
                            (spec_start_index (get_settings cfg_rotation) (int 3) h + 1) mod int 3"
    and si: "\<forall>h \<in> {0..167}. spec_start_index (get_settings cfg_rotation) (int 3) h = h mod int 3"
    by blast+
  have s0: "select_repos cfg_rotation 0 = Inr [merged (get_overrides cfg_rotation) repo_alpha]"
    using sel [rule_format, of 0] by (simp add: a)
  have s1: "select_repos cfg_rotation 1 = Inr [repo_beta]"
    using sel [rule_format, of 1] by (simp add: a m)
  have s2: "select_repos cfg_rotation 2 = Inr [repo_gamma]"
    using sel [rule_format, of 2] by (simp add: a m)
  have s3: "select_repos cfg_rotation 3 = Inr [merged (get_overrides cfg_rotation) repo_alpha]"
    using sel [rule_format, of 3] by (simp add: a)
  have s167: "select_repos cfg_rotation 167 = Inr [repo_gamma]"
    using sel [rule_format, of 167] by (simp add: a m)
  have c: "length (filter (\<lambda>h. spec_start_index (get_settings cfg_rotation) 3 h = 1) [0..167]) = 56"
    using cnt [rule_format, of 1] by (simp del: upto.simps)
  have st: "spec_start_index (get_settings cfg_rotation) 3 (2 + 1) = 0"
    using step [rule_format, of 2] si [rule_format, of 2] by simp
  show ?thesis using a r s0 s1 s2 s3 s167 c st by (simp del: upto.simps)
qed

subsection \<open>The selection on the heap: nothing of the configuration changes\<close>

text \<open>
  The heap is the only state \<^verbatim>\<open>select_repos\<close> could read or change besides its arguments.
  Each iteration updates the copy it has just made, at a new address, so every object
  of the configuration stays as it was, and the records returned are those of the
  selection on values.
\<close>

lemma heap_extends_refl: "heap_extends hp hp"
  by (simp add: heap_extends_def)

lemma heap_extends_trans: "heap_extends a b \<Longrightarrow> heap_extends b c \<Longrightarrow> heap_extends a c"
  by (auto simp: heap_extends_def)

lemma heap_extends_deref: "heap_extends hp hp' \<Longrightarrow> a < h_next hp \<Longrightarrow> deref hp' a = deref hp a"
  by (simp add: heap_extends_def deref_def)

lemma heap_extends_map_deref:
  "heap_extends hp hp' \<Longrightarrow> list_all (\<lambda>a. a < h_next hp) as \<Longrightarrow> map (deref hp') as = map (deref hp) as"
  by (induction as) (simp_all add: heap_extends_deref)

lemma heap_extends_abs_overrides:
  assumes "heap_extends hp hp'" and "\<forall>a \<in> ran m. a < h_next hp"
  shows "abs_overrides hp' m = abs_overrides hp m"
proof
  fix k
  show "abs_overrides hp' m k = abs_overrides hp m k"
  proof (cases "m k")
    case None
    then show ?thesis by (simp add: abs_overrides_def)
  next
    case (Some a)
    then have "a \<in> ran m" by (auto simp: ran_def)
    then have "a < h_next hp" using assms(2) by blast
    then show ?thesis using Some assms(1) by (simp add: abs_overrides_def heap_extends_deref)
  qed
qed

lemma dict_contains_abs: "dict_contains (abs_overrides hp m) v = dict_contains m v"
  by (cases v) (simp_all add: dict_contains_def abs_overrides_def)

lemma dict_getitem_abs:
  "dict_getitem (abs_overrides hp m) v =
     (case dict_getitem m v of Inl e \<Rightarrow> Inl e | Inr a \<Rightarrow> Inr (deref hp a))"
  by (cases v) (simp_all add: dict_getitem_def abs_overrides_def split: option.splits)

lemma dict_getitem_ran: "dict_getitem m v = Inr a \<Longrightarrow> a \<in> ran m"
  by (cases v) (auto simp: dict_getitem_def ran_def split: option.splits)

text \<open>One iteration's copy and update.\<close>

lemma deref_heap_copy:
  "deref (snd (heap_copy r hp)) a = (if a = h_next hp then deref hp r else deref hp a)"
  by (simp add: heap_copy_def deref_def)

lemma heap_copy_extends: "heap_extends hp (snd (heap_copy r hp))"
  by (simp add: heap_copy_def heap_extends_def)

lemma heap_copy_next: "h_next (snd (heap_copy r hp)) = Suc (h_next hp)"
  by (simp add: heap_copy_def)

lemma heap_update_new_extends:
  "heap_extends hp (heap_update (h_next hp) b (snd (heap_copy r hp)))"
  by (simp add: heap_copy_def heap_update_def heap_extends_def)

lemma heap_update_next: "h_next (heap_update a b hp) = h_next hp"
  by (simp add: heap_update_def)

lemma deref_heap_update:
  "deref (heap_update a b hp) c = (if c = a then dict_update (deref hp a) (deref hp b) else deref hp c)"
  by (simp add: heap_update_def deref_def)

lemma apply_overrides_h_unfold:
  "apply_overrides_h m r hp =
     (case dict_contains m (dict_get (deref hp r) ''name'') of
        Inl e \<Rightarrow> (Inl e, snd (heap_copy r hp))
      | Inr b \<Rightarrow>
          if b then
            (case dict_getitem m (dict_get (deref hp r) ''name'') of
               Inl e \<Rightarrow> (Inl e, snd (heap_copy r hp))
             | Inr a \<Rightarrow> (Inr (h_next hp), heap_update (h_next hp) a (snd (heap_copy r hp))))
          else (Inr (h_next hp), snd (heap_copy r hp)))"
proof -
  have c: "heap_copy r hp = (h_next hp, snd (heap_copy r hp))" by (simp add: heap_copy_def)
  show ?thesis
    unfolding apply_overrides_h_def
    by (subst c) (simp add: Let_def deref_heap_copy split: sum.splits)
qed

lemma apply_overrides_unfold:
  "apply_overrides (abs_overrides hp m) d =
     (case dict_contains m (dict_get d ''name'') of
        Inl e \<Rightarrow> Inl e
      | Inr b \<Rightarrow>
          if b then
            (case dict_getitem m (dict_get d ''name'') of
               Inl e \<Rightarrow> Inl e
             | Inr a \<Rightarrow> Inr (dict_update d (deref hp a)))
          else Inr d)"
  by (simp add: apply_overrides_def Let_def dict_contains_abs dict_getitem_abs
      split: sum.splits)

lemma apply_overrides_h_sound:
  assumes "\<forall>a \<in> ran m. a < h_next hp"
    and "apply_overrides_h m r hp = (res, hp')"
  shows "heap_extends hp hp' \<and> h_next hp' = Suc (h_next hp)
         \<and> (case res of
               Inl e \<Rightarrow> apply_overrides (abs_overrides hp m) (deref hp r) = Inl e
             | Inr a \<Rightarrow> a = h_next hp
                 \<and> apply_overrides (abs_overrides hp m) (deref hp r) = Inr (deref hp' a))"
proof -
  let ?c = "dict_contains m (dict_get (deref hp r) ''name'')"
  let ?g = "dict_getitem m (dict_get (deref hp r) ''name'')"
  note u = apply_overrides_h_unfold apply_overrides_unfold
  consider (err) e where "?c = Inl e"
    | (absent) "?c = Inr False"
    | (err2) e where "?c = Inr True" "?g = Inl e"
    | (present) a where "?c = Inr True" "?g = Inr a"
    by (cases ?c; cases ?g) auto
  then show ?thesis
  proof cases
    case err
    have "res = Inl e" "hp' = snd (heap_copy r hp)"
      using assms(2) by (simp_all add: u err)
    then show ?thesis by (simp add: u err heap_copy_extends heap_copy_next)
  next
    case absent
    have "res = Inr (h_next hp)" "hp' = snd (heap_copy r hp)"
      using assms(2) by (simp_all add: u absent)
    then show ?thesis by (simp add: u absent heap_copy_extends heap_copy_next deref_heap_copy)
  next
    case err2
    have "res = Inl e" "hp' = snd (heap_copy r hp)"
      using assms(2) by (simp_all add: u err2)
    then show ?thesis by (simp add: u err2 heap_copy_extends heap_copy_next)
  next
    case present
    have "a \<in> ran m" using present(2) by (rule dict_getitem_ran)
    then have ne: "a \<noteq> h_next hp" using assms(1) by auto
    have "res = Inr (h_next hp)" "hp' = heap_update (h_next hp) a (snd (heap_copy r hp))"
      using assms(2) by (simp_all add: u present)
    then show ?thesis
      by (simp add: u present ne heap_update_new_extends heap_update_next heap_copy_next
          deref_heap_update deref_heap_copy)
  qed
qed


lemma list_getitem_map:
  "list_getitem (map f xs) i = (case list_getitem xs i of Inl e \<Rightarrow> Inl e | Inr x \<Rightarrow> Inr (f x))"
  by (auto simp: list_getitem_def nat_less_iff)

lemma list_getitem_set: "list_getitem xs i = Inr x \<Longrightarrow> x \<in> set xs"
  by (auto simp: list_getitem_def split: if_splits)

lemma list_all_mono_next:
  "heap_extends hp hp' \<Longrightarrow> list_all (\<lambda>a. a < h_next hp) as \<Longrightarrow> list_all (\<lambda>a. a < h_next hp') as"
  by (auto simp: heap_extends_def list_all_iff)

lemma result_of_simps:
  "result_of (Inl e, hp) = Inl e"
  "result_of (Inr as, hp) = Inr (map (deref hp) as)"
  by (simp_all add: result_of_def)

lemma select_loop_h_sound:
  assumes "list_all (\<lambda>a. a < h_next hp) repos" and "\<forall>a \<in> ran m. a < h_next hp"
    and "list_all (\<lambda>a. a < h_next hp) acc"
    and "select_loop_h repos m start n js acc hp = (res, hp')"
  shows "heap_extends hp hp'
         \<and> result_of (res, hp') =
             select_loop (map (deref hp) repos) (abs_overrides hp m) start n js
               (map (deref hp) acc)"
  using assms
proof (induction js arbitrary: acc hp)
  case Nil
  then show ?case by (auto simp: heap_extends_refl result_of_simps)
next
  case (Cons j js)
  let ?k = "(start + j) mod n"
  show ?case
  proof (cases "list_getitem repos ?k")
    case (Inl e)
    then have "res = Inl e" "hp' = hp" using Cons.prems(4) by (simp_all add: Let_def)
    then show ?thesis by (simp add: Let_def list_getitem_map Inl heap_extends_refl result_of_simps)
  next
    case (Inr r)
    obtain res1 hp1 where ao: "apply_overrides_h m r hp = (res1, hp1)" by force
    note sd = apply_overrides_h_sound [OF Cons.prems(2) ao]
    from sd have ext: "heap_extends hp hp1" and nx: "h_next hp1 = Suc (h_next hp)" by simp_all
    show ?thesis
    proof (cases res1)
      case (Inl e)
      then have "res = Inl e" "hp' = hp1" using Cons.prems(4) Inr ao by (simp_all add: Let_def)
      moreover have "apply_overrides (abs_overrides hp m) (deref hp r) = Inl e"
        using sd Inl by simp
      ultimately show ?thesis
        using ext by (simp add: Let_def list_getitem_map Inr result_of_simps)
    next
      case (Inr a)
      then have a: "a = h_next hp"
        and pure: "apply_overrides (abs_overrides hp m) (deref hp r) = Inr (deref hp1 a)"
        using sd by simp_all
      have rec: "select_loop_h repos m start n js (acc @ [a]) hp1 = (res, hp')"
        using Cons.prems(4) \<open>list_getitem repos ?k = Inr r\<close> ao Inr by (simp add: Let_def)
      have p1: "list_all (\<lambda>a. a < h_next hp1) repos"
        using ext Cons.prems(1) by (rule list_all_mono_next)
      have p2: "\<forall>a \<in> ran m. a < h_next hp1" using Cons.prems(2) nx by auto
      have p3: "list_all (\<lambda>a. a < h_next hp1) (acc @ [a])"
        using list_all_mono_next [OF ext Cons.prems(3)] a nx by simp
      from Cons.IH [OF p1 p2 p3 rec]
      have ext1: "heap_extends hp1 hp'"
        and r: "result_of (res, hp') =
                select_loop (map (deref hp1) repos) (abs_overrides hp1 m) start n js
                  (map (deref hp1) (acc @ [a]))"
        by simp_all
      have e1: "map (deref hp1) repos = map (deref hp) repos"
        using ext Cons.prems(1) by (rule heap_extends_map_deref)
      have e2: "abs_overrides hp1 m = abs_overrides hp m"
        using ext Cons.prems(2) by (rule heap_extends_abs_overrides)
      have e3: "map (deref hp1) acc = map (deref hp) acc"
        using ext Cons.prems(3) by (rule heap_extends_map_deref)
      show ?thesis
        using heap_extends_trans [OF ext ext1] r
        by (simp add: e1 e2 e3 Let_def list_getitem_map \<open>list_getitem repos ?k = Inr r\<close> pure)
    qed
  qed
qed

lemma select_repos_h_sound:
  assumes "config_in_heap hp hc" and "select_repos_h hc h hp = (res, hp')"
  shows "heap_extends hp hp' \<and> result_of (res, hp') = select_repos (abs_config hp hc) h"
proof -
  let ?repos = "hget_active_repos hc"
  let ?m = "hget_overrides hc"
  let ?s = "hget_settings hc"
  have s: "get_settings (abs_config hp hc) = ?s"
    by (simp add: get_settings_def hget_settings_def abs_config_def)
  have a: "get_active_repos (abs_config hp hc) = map (deref hp) ?repos"
    by (simp add: get_active_repos_def hget_active_repos_def abs_config_def
        split: option.splits)
  have o: "get_overrides (abs_config hp hc) = abs_overrides hp ?m"
    by (auto simp: get_overrides_def hget_overrides_def abs_config_def abs_overrides_def
        split: option.splits)
  have p1: "list_all (\<lambda>a. a < h_next hp) ?repos"
    using assms(1) by (simp add: config_in_heap_def)
  have p2: "\<forall>a \<in> ran ?m. a < h_next hp"
    using assms(1) by (simp add: config_in_heap_def)
  show ?thesis
  proof (cases "?repos = [] \<or> \<not> is_active_time h ?s")
    case True
    then have "select_repos_h hc h hp = (Inr [], hp)"
      by (auto simp: select_repos_h_def Let_def)
    then have "res = Inr []" "hp' = hp" using assms(2) by simp_all
    moreover have "select_repos (abs_config hp hc) h = Inr []"
      using True by (auto simp: select_repos_def s a Let_def)
    ultimately show ?thesis by (simp add: result_of_simps heap_extends_refl)
  next
    case False
    let ?ah = "or_default (s_active_hours ?s) [0..23]"
    let ?ad = "or_default (s_active_days ?s) [0..6]"
    let ?st = "(spec_ordinal ?ad (h div 24) * int (length ?ah) + spec_ordinal ?ah (h mod 24))
                 * get_repos_per_hour ?s mod int (length ?repos)"
    have h: "select_repos_h hc h hp =
             select_loop_h ?repos ?m ?st (int (length ?repos))
               [0..get_repos_per_hour ?s - 1] [] hp"
      using False by (simp add: select_repos_h_def Let_def position_ordinal del: upto.simps)
    have p: "select_repos (abs_config hp hc) h =
             select_loop (map (deref hp) ?repos) (abs_overrides hp ?m) ?st (int (length ?repos))
               [0..get_repos_per_hour ?s - 1] (map (deref hp) [])"
      using False by (simp add: select_repos_def s a o Let_def position_ordinal del: upto.simps)
    have "select_loop_h ?repos ?m ?st (int (length ?repos))
            [0..get_repos_per_hour ?s - 1] [] hp = (res, hp')"
      using assms(2) h by simp
    from select_loop_h_sound [OF p1 p2 _ this] show ?thesis by (simp add: p)
  qed
qed


lemma heap_extends_config:
  assumes "heap_extends hp hp'" and "config_in_heap hp hc"
  shows "config_in_heap hp' hc \<and> abs_config hp' hc = abs_config hp hc"
proof -
  have p1: "list_all (\<lambda>a. a < h_next hp) (hget_active_repos hc)"
    and p2: "\<forall>a \<in> ran (hget_overrides hc). a < h_next hp"
    using assms(2) by (simp_all add: config_in_heap_def)
  have le: "h_next hp \<le> h_next hp'" using assms(1) by (simp add: heap_extends_def)
  have c: "config_in_heap hp' hc"
    using list_all_mono_next [OF assms(1) p1] p2 le by (auto simp: config_in_heap_def)
  have r: "map (deref hp') rs = map (deref hp) rs" if "hc_active_repos hc = Some rs" for rs
    using heap_extends_map_deref [OF assms(1) p1] that by (simp add: hget_active_repos_def)
  have m: "abs_overrides hp' ov = abs_overrides hp ov" if "hc_overrides hc = Some ov" for ov
    using heap_extends_abs_overrides [OF assms(1) p2] that by (simp add: hget_overrides_def)
  have "abs_config hp' hc = abs_config hp hc"
    by (cases "hc_active_repos hc"; cases "hc_overrides hc") (simp_all add: abs_config_def r m)
  then show ?thesis using c by simp
qed

lemma heap_one_overrides:
  "abs_overrides heap_one [''alpha'' \<mapsto> 2] = [''alpha'' \<mapsto> [''branch'' \<mapsto> PStr ''dev'']]"
  by (rule ext) (simp add: abs_overrides_def deref_def heap_one_def)

lemma heap_two_overrides:
  "abs_overrides heap_two [''alpha'' \<mapsto> 4] = [''alpha'' \<mapsto> [''branch'' \<mapsto> PStr ''dev'']]"
  by (rule ext) (simp add: abs_overrides_def deref_def heap_two_def)

lemma abs_config_one:
  "abs_config heap_one hconfig_one =
     example_config (example_settings None None (Some 2)) [repo_alpha, repo_beta]"
  by (simp add: abs_config_def hconfig_one_def heap_one_overrides example_config_def)
     (simp add: heap_one_def deref_def)

lemma abs_config_two:
  "abs_config heap_two hconfig_two =
     example_config (example_settings None None (Some 2)) [repo_alpha, repo_beta]"
  by (simp add: abs_config_def hconfig_two_def heap_two_overrides example_config_def)
     (simp add: heap_two_def deref_def)

lemma config_in_heap_one: "config_in_heap heap_one hconfig_one"
  by (simp add: config_in_heap_def hget_active_repos_def hget_overrides_def hconfig_one_def
      heap_one_def)

lemma config_in_heap_two: "config_in_heap heap_two hconfig_two"
  by (simp add: config_in_heap_def hget_active_repos_def hget_overrides_def hconfig_two_def
      heap_two_def)

text \<open>
  A run on the first example heap: the records returned are the new objects 3 and 4, the
  record of \<^verbatim>\<open>alpha\<close> in the configuration is as before, its copy has the override.
\<close>

lemma heap_run_example:
  "fst (select_repos_h hconfig_one 0 heap_one) = Inr [3, 4]
   \<and> h_objs (snd (select_repos_h hconfig_one 0 heap_one)) 0 = Some repo_alpha
   \<and> h_objs (snd (select_repos_h hconfig_one 0 heap_one)) 3
       = Some (repo_alpha ++ [''branch'' \<mapsto> PStr ''dev''])"
  by (simp add: select_repos_h_def hget_settings_def hget_active_repos_def hget_overrides_def
      hconfig_one_def heap_one_def example_settings_def get_repos_per_hour_def
      is_active_time_def or_default_def list_getitem_def apply_overrides_h_def heap_copy_def
      heap_update_def deref_def dict_get_def dict_contains_def dict_getitem_def dict_update_def
      repo_alpha_def repo_beta_def Let_def upto_rec1)

text \<open>
  Claim C7. \<^verbatim>\<open>select_repos\<close> is deterministic: two calls with the same configuration (as
  values, wherever its dictionaries live in the heap) and the same hour return the same
  records, which are the function \<open>select_repos\<close> of the configuration's value and the
  hour. A call leaves the configuration as it was, so calling again in the heap the first
  call left returns the same records again: there is no hidden state.
\<close>

theorem select_repos_deterministic:
  assumes "config_in_heap hp1 hc1" and "config_in_heap hp2 hc2"
    and "abs_config hp1 hc1 = abs_config hp2 hc2"
  shows "result_of (select_repos_h hc1 h hp1) = result_of (select_repos_h hc2 h hp2)
       \<and> result_of (select_repos_h hc1 h hp1) = select_repos (abs_config hp1 hc1) h
       \<and> config_in_heap (snd (select_repos_h hc1 h hp1)) hc1
       \<and> abs_config (snd (select_repos_h hc1 h hp1)) hc1 = abs_config hp1 hc1
       \<and> result_of (select_repos_h hc1 h (snd (select_repos_h hc1 h hp1)))
           = result_of (select_repos_h hc1 h hp1)"
proof -
  obtain r1 hp1' where c1: "select_repos_h hc1 h hp1 = (r1, hp1')" by force
  obtain r2 hp2' where c2: "select_repos_h hc2 h hp2 = (r2, hp2')" by force
  note s1 = select_repos_h_sound [OF assms(1) c1]
  note s2 = select_repos_h_sound [OF assms(2) c2]
  from s1 have ext: "heap_extends hp1 hp1'" by simp
  note k = heap_extends_config [OF ext assms(1)]
  obtain r3 hp3 where c3: "select_repos_h hc1 h hp1' = (r3, hp3)" by force
  have s3: "result_of (r3, hp3) = select_repos (abs_config hp1' hc1) h"
    using select_repos_h_sound [OF _ c3] k by simp
  show ?thesis using s1 s2 s3 k assms(3) by (simp add: c1 c2 c3)
qed

text \<open>
  The same configuration at different addresses in two heaps gives the same records, and
  so does a second call after the first.
\<close>

theorem select_repos_deterministic_witness:
  "config_in_heap heap_one hconfig_one \<and> config_in_heap heap_two hconfig_two
   \<and> abs_config heap_one hconfig_one = abs_config heap_two hconfig_two
   \<and> hc_active_repos hconfig_one \<noteq> hc_active_repos hconfig_two
   \<and> result_of (select_repos_h hconfig_one 0 heap_one)
       = result_of (select_repos_h hconfig_two 0 heap_two)
   \<and> result_of (select_repos_h hconfig_one 0 heap_one)
       = Inr [repo_alpha ++ [''branch'' \<mapsto> PStr ''dev''], repo_beta]
   \<and> result_of (select_repos_h hconfig_one 0 (snd (select_repos_h hconfig_one 0 heap_one)))
       = result_of (select_repos_h hconfig_one 0 heap_one)"
proof -
  have e: "abs_config heap_one hconfig_one = abs_config heap_two hconfig_two"
    by (simp add: abs_config_one abs_config_two)
  note t = select_repos_deterministic [OF config_in_heap_one config_in_heap_two e, of 0]
  have v: "select_repos (abs_config heap_one hconfig_one) 0
           = Inr [repo_alpha ++ [''branch'' \<mapsto> PStr ''dev''], repo_beta]"
    by (simp add: abs_config_one example_defs eval_defs)
  have d: "hc_active_repos hconfig_one \<noteq> hc_active_repos hconfig_two"
    by (simp add: hconfig_one_def hconfig_two_def)
  from t have t1: "result_of (select_repos_h hconfig_one 0 heap_one)
                   = result_of (select_repos_h hconfig_two 0 heap_two)"
    and t2: "result_of (select_repos_h hconfig_one 0 heap_one)
             = select_repos (abs_config heap_one hconfig_one) 0"
    and t3: "result_of (select_repos_h hconfig_one 0 (snd (select_repos_h hconfig_one 0 heap_one)))
             = result_of (select_repos_h hconfig_one 0 heap_one)"
    by blast+
  have t4: "result_of (select_repos_h hconfig_one 0 heap_one)
            = Inr [repo_alpha ++ [''branch'' \<mapsto> PStr ''dev''], repo_beta]"
    using t2 v by (rule trans)
  show ?thesis
    using config_in_heap_one config_in_heap_two e d t1 t4 t3 by blast
qed


end
